theory Spec2Isabelle
  imports Complex_Main
begin

section \<open>Data model\<close>

text \<open>
  A request field as Express hands it over: form-data sends strings, raw JSON sends
  booleans, and a field may be absent or null.
\<close>

datatype jsval = JUndefined | JNull | JBool bool | JString string

text \<open>
  What \<^verbatim>\<open>parseFloat\<close> returns: NaN or a number. The handler only tests the number for
  NaN and copies it.
\<close>

datatype jsnumber = NaN | Num real

text \<open>
  One pole or GPS record, kept as its JSON text: the handler copies these records and
  never reads them.
\<close>

type_synonym detail = string

text \<open>
  The request field \<^verbatim>\<open>poleDetails\<close> or \<^verbatim>\<open>gpsDetails\<close>: a falsy value (absent, null,
  the empty string), a value of type object sent as raw JSON with its records, a string
  with the array that \<^verbatim>\<open>JSON.parse\<close> reads from it (\<open>None\<close> when the parse throws or
  gives no array), or any other value.
\<close>

datatype rawField = Falsy | Object "detail list" | JsonText "detail list option" | Other

text \<open>
  What the image upload does: there is no file, or \<^verbatim>\<open>handleSingleImageUpload\<close>
  returns a URL or null, or it throws.
\<close>

datatype upload = NoFile | Uploaded "string option" | UploadFailed

text \<open>
  The waypoint sub-document of \<^verbatim>\<open>WaypointSchema\<close>, without the \<^verbatim>\<open>_id\<close> that
  Mongoose adds. Object ids are natural numbers, the timestamp is in milliseconds since the
  epoch, and \<^verbatim>\<open>pathOwner\<close> is optional in the schema.
\<close>

record waypoint =
  name :: string
  wp_description :: "string option"
  distanceFromPrevious :: jsnumber
  latitude :: jsnumber
  longitude :: jsnumber
  isStart :: bool
  isEnd :: bool
  image :: "string option"
  poleDetails :: "detail list"
  gpsDetails :: "detail list"
  routeType :: string
  routeStartingPoint :: string
  routeEndingPoint :: string
  createdBy :: nat
  timestamp :: int
  pathOwner :: "nat option"

text \<open>The project document of \<^verbatim>\<open>ProjectSchema\<close>: \<^verbatim>\<open>waypoints\<close> is a list of paths.\<close>

record project =
  projectId :: string
  circle :: string
  division :: string
  description :: "string option"
  employees :: "nat list"
  waypoints :: "waypoint list list"

text \<open>
  The fields of \<^verbatim>\<open>req.body\<close> (an absent string is empty); the three numbers are given
  as \<^verbatim>\<open>parseFloat\<close> returns them.
\<close>

record body =
  b_name :: string
  b_description :: "string option"
  b_distanceFromPrevious :: jsnumber
  b_latitude :: jsnumber
  b_longitude :: jsnumber
  b_isStart :: jsval
  b_isEnd :: jsval
  b_poleDetails :: rawField
  b_gpsDetails :: rawField
  b_routeType :: string
  b_routeStartingPoint :: string
  b_routeEndingPoint :: string

text \<open>What the handler sends: status 201 with the waypoint, or a status and a message.\<close>

datatype response = Created waypoint | Failed nat string

section \<open>addWaypoint\<close>

text \<open>\<^verbatim>\<open>isStart === "true" || isStart === true\<close>\<close>

definition parseFlag :: "jsval \<Rightarrow> bool" where
  "parseFlag v = (v = JString ''true'' \<or> v = JBool True)"

text \<open>\<^verbatim>\<open>v == null\<close> holds of null and undefined only.\<close>

definition isNullish :: "jsval \<Rightarrow> bool" where
  "isNullish v = (v = JUndefined \<or> v = JNull)"

text \<open>
  \<^verbatim>\<open>field ? parseJsonField(field, fieldName) : []\<close>: a falsy field gives the empty
  array, an object is returned as it is, a string must parse to an array, and everything
  else throws (\<open>None\<close>).
\<close>

definition parseJsonField :: "rawField \<Rightarrow> detail list option" where
  "parseJsonField field =
     (case field of
        Falsy \<Rightarrow> Some []
      | Object records \<Rightarrow> Some records
      | JsonText parsed \<Rightarrow> parsed
      | Other \<Rightarrow> None)"

text \<open>The required-field check.\<close>

definition missingRequired :: "body \<Rightarrow> bool" where
  "missingRequired b =
     (b_name b = [] \<or> b_latitude b = NaN \<or> b_longitude b = NaN \<or>
      isNullish (b_isStart b) \<or> isNullish (b_isEnd b) \<or>
      b_routeType b = [] \<or> b_routeStartingPoint b = [] \<or> b_routeEndingPoint b = [])"

text \<open>
  The image upload: \<open>None\<close> when it throws, otherwise the value of \<^verbatim>\<open>imageUrl\<close>.
\<close>

definition imageUrlOf :: "upload \<Rightarrow> string option option" where
  "imageUrlOf u = (case u of NoFile \<Rightarrow> Some None | Uploaded url \<Rightarrow> Some url | UploadFailed \<Rightarrow> None)"

text \<open>The waypoint object literal; \<^verbatim>\<open>new Date()\<close> is the argument \<open>now\<close>.\<close>

definition mkWaypoint ::
    "body \<Rightarrow> detail list \<Rightarrow> detail list \<Rightarrow> nat \<Rightarrow> string option \<Rightarrow> int \<Rightarrow> waypoint" where
  "mkWaypoint b parsedPoleDetails parsedGpsDetails employeeId imageUrl now =
     \<lparr> name = b_name b,
       wp_description = b_description b,
       distanceFromPrevious = b_distanceFromPrevious b,
       latitude = b_latitude b,
       longitude = b_longitude b,
       isStart = parseFlag (b_isStart b),
       isEnd = parseFlag (b_isEnd b),
       image = imageUrl,
       poleDetails = parsedPoleDetails,
       gpsDetails = parsedGpsDetails,
       routeType = b_routeType b,
       routeStartingPoint = b_routeStartingPoint b,
       routeEndingPoint = b_routeEndingPoint b,
       createdBy = employeeId,
       timestamp = now,
       pathOwner = Some employeeId \<rparr>"

text \<open>The filter predicate \<^verbatim>\<open>path[0].pathOwner?.toString() === employeeId.toString()\<close>.\<close>

definition ownedBy :: "nat \<Rightarrow> waypoint list \<Rightarrow> bool" where
  "ownedBy employeeId path = (pathOwner (hd path) = Some employeeId)"

text \<open>
  \<^verbatim>\<open>project.waypoints.filter(...)\<close>. The predicate reads \<^verbatim>\<open>path[0].pathOwner\<close> of every
  path; on an empty path \<^verbatim>\<open>path[0]\<close> is undefined and the read throws a TypeError,
  which is \<open>None\<close> here.
\<close>

definition userPaths :: "waypoint list list \<Rightarrow> nat \<Rightarrow> waypoint list list option" where
  "userPaths wps employeeId =
     (if [] \<in> set wps then None else Some (filter (ownedBy employeeId) wps))"

text \<open>
  \<^verbatim>\<open>lastUserPath && !lastUserPath[lastUserPath.length - 1].isEnd\<close>, where
  \<^verbatim>\<open>lastUserPath = userPaths[userPaths.length - 1]\<close> is undefined when there is none.
\<close>

definition hasIncompletePath :: "waypoint list list \<Rightarrow> bool" where
  "hasIncompletePath ups = (ups \<noteq> [] \<and> \<not> isEnd (last (last ups)))"

text \<open>
  \<^verbatim>\<open>lastUserPath.push(waypoint)\<close>: \<^verbatim>\<open>lastUserPath\<close> is the same array object as the
  last path of \<^verbatim>\<open>project.waypoints\<close> that passes the filter, so the push extends that
  path inside the project and leaves every other path as it is.
\<close>

fun pushToLastUserPath :: "nat \<Rightarrow> waypoint \<Rightarrow> waypoint list list \<Rightarrow> waypoint list list" where
  "pushToLastUserPath employeeId wp [] = []"
| "pushToLastUserPath employeeId wp (path # paths) =
     (if \<exists>q \<in> set paths. ownedBy employeeId q then path # pushToLastUserPath employeeId wp paths
      else if ownedBy employeeId path then (path @ [wp]) # paths
      else path # paths)"

text \<open>
  \<^verbatim>\<open>await project.save()\<close> validates the new sub-document and writes the project. The
  cast of a Number field rejects NaN, and \<^verbatim>\<open>distanceFromPrevious\<close> is the one number
  of the waypoint that can still be NaN when the save is reached. Whether the pole and GPS
  records pass their schemas and the database takes the write is decided outside the
  handler: that is the argument \<open>accepted\<close>. The result tells whether the save succeeds.
\<close>

definition projectSave :: "waypoint \<Rightarrow> bool \<Rightarrow> bool" where
  "projectSave wp accepted = (distanceFromPrevious wp \<noteq> NaN \<and> accepted)"

text \<open>
  The path logic and the save, lines 312 to 357, for a waypoint that has been built. The
  result is the response and the project document as it is stored afterwards: the pushes
  change the loaded document, which is stored only when the save succeeds. A TypeError and
  a failing save are caught by the handler and answered with 500.
\<close>

definition addToPaths ::
    "project \<Rightarrow> nat \<Rightarrow> waypoint \<Rightarrow> bool \<Rightarrow> response \<times> project" where
  "addToPaths project employeeId waypoint accepted =
     (case userPaths (waypoints project) employeeId of
        None \<Rightarrow> (Failed 500 ''Server error'', project)
      | Some ups \<Rightarrow>
          if isStart waypoint then
            (if hasIncompletePath ups then
               (Failed 400 ''Cannot start a new path. Your last path is not complete.'', project)
             else if projectSave waypoint accepted then
               (Created waypoint, project\<lparr>waypoints := waypoints project @ [[waypoint]]\<rparr>)
             else (Failed 500 ''Server error'', project))
          else if isEnd waypoint then
            (if \<not> hasIncompletePath ups then
               (Failed 400 ''Cannot end a path that hasn't started.'', project)
             else if projectSave waypoint accepted then
               (Created waypoint,
                project\<lparr>waypoints :=
                  pushToLastUserPath employeeId waypoint (waypoints project)\<rparr>)
             else (Failed 500 ''Server error'', project))
          else
            (if \<not> hasIncompletePath ups then
               (Failed 400 ''No active path found. Start a new path with isStart: true before adding midpoints.'', project)
             else if projectSave waypoint accepted then
               (Created waypoint,
                project\<lparr>waypoints :=
                  pushToLastUserPath employeeId waypoint (waypoints project)\<rparr>)
             else (Failed 500 ''Server error'', project)))"

text \<open>
  The handler from the membership check on, for a project that \<^verbatim>\<open>findOne\<close> has loaded:
  the membership check, the parsing of the two detail fields, the required-field check,
  the image upload, and then the path logic with the waypoint built from the request.
\<close>

definition addWaypoint ::
    "project \<Rightarrow> nat \<Rightarrow> body \<Rightarrow> upload \<Rightarrow> int \<Rightarrow> bool \<Rightarrow> response \<times> project" where
  "addWaypoint project employeeId b u now accepted =
     (if employeeId \<notin> set (employees project) then
        (Failed 403 ''Not assigned to this project'', project)
      else
        case parseJsonField (b_poleDetails b) of
          None \<Rightarrow> (Failed 400 ''Invalid poleDetails format'', project)
        | Some parsedPoleDetails \<Rightarrow>
            (case parseJsonField (b_gpsDetails b) of
               None \<Rightarrow> (Failed 400 ''Invalid gpsDetails format'', project)
             | Some parsedGpsDetails \<Rightarrow>
                 if missingRequired b then
                   (Failed 400 ''Missing required fields'', project)
                 else
                   (case imageUrlOf u of
                      None \<Rightarrow> (Failed 400 ''Image upload failed'', project)
                    | Some imageUrl \<Rightarrow>
                        addToPaths project employeeId
                          (mkWaypoint b parsedPoleDetails parsedGpsDetails employeeId
                             imageUrl now)
                          accepted)))"

text \<open>The three rejections of the path state machine.\<close>

definition isPathConflict :: "response \<Rightarrow> bool" where
  "isPathConflict r =
     (r = Failed 400 ''Cannot start a new path. Your last path is not complete.'' \<or>
      r = Failed 400 ''Cannot end a path that hasn't started.'' \<or>
      r = Failed 400 ''No active path found. Start a new path with isStart: true before adding midpoints.'')"

text \<open>
  The project states reachable from a project without paths by accepted submissions
  whose bodies satisfy \<open>ok\<close>.
\<close>

inductive reachableBy :: "(body \<Rightarrow> bool) \<Rightarrow> project \<Rightarrow> bool" for ok :: "body \<Rightarrow> bool" where
  init: "waypoints p = [] \<Longrightarrow> reachableBy ok p"
| step: "reachableBy ok p \<Longrightarrow> ok b \<Longrightarrow>
         addWaypoint p employeeId b u now accepted = (Created wp, p') \<Longrightarrow>
         reachableBy ok p'"

definition reachable :: "project \<Rightarrow> bool" where
  "reachable p = reachableBy (\<lambda>b. True) p"

text \<open>A path is open when its last waypoint is not an end.\<close>

definition isOpen :: "waypoint list \<Rightarrow> bool" where
  "isOpen path = (\<not> isEnd (last path))"

text \<open>
  The invariant of the path collection: no path is empty, every path begins with a start
  waypoint, and of the paths one employee owns only the last can be open.
\<close>

definition pathsInv :: "waypoint list list \<Rightarrow> bool" where
  "pathsInv wps =
     ((\<forall>path \<in> set wps. path \<noteq> [] \<and> isStart (hd path)) \<and>
      (\<forall>e. \<forall>path \<in> set (butlast (filter (ownedBy e) wps)). \<not> isOpen path))"

section \<open>getAllWaypointsEmployee\<close>

text \<open>The user document of \<^verbatim>\<open>UserSchema\<close>, as far as the handler reads it.\<close>

record user =
  u_id :: nat
  u_empId :: string
  u_name :: string
  u_role :: string
  u_email :: "string option"

text \<open>
  \<^verbatim>\<open>populate\<close> replaces the \<^verbatim>\<open>createdBy\<close> reference of a waypoint by the user
  document with that id, or by null when there is none.
\<close>

definition populateCreatedBy :: "user list \<Rightarrow> waypoint \<Rightarrow> user option" where
  "populateCreatedBy users wp = find (\<lambda>u. u_id u = createdBy wp) users"

text \<open>The filter predicate \<^verbatim>\<open>wp.createdBy?.empId === empId\<close> on a populated waypoint.\<close>

definition createdByEmp :: "user list \<Rightarrow> string \<Rightarrow> waypoint \<Rightarrow> bool" where
  "createdByEmp users empId wp =
     (case populateCreatedBy users wp of None \<Rightarrow> False | Some u \<Rightarrow> u_empId u = empId)"

text \<open>\<^verbatim>\<open>project.waypoints.flat().filter(...)\<close>\<close>

definition employeeWaypoints :: "user list \<Rightarrow> string \<Rightarrow> project \<Rightarrow> waypoint list" where
  "employeeWaypoints users empId project =
     filter (createdByEmp users empId) (concat (waypoints project))"

text \<open>
  An element of \<^verbatim>\<open>allSegments\<close>. The date string
  \<^verbatim>\<open>new Date(ts).toISOString().split("T")[0]\<close> names the UTC calendar day of the
  timestamp; it is represented by the number of that day, counted from the epoch.
\<close>

record segment =
  seg_projectId :: string
  seg_circle :: string
  seg_division :: string
  seg_description :: "string option"
  seg_segment :: "waypoint list"
  seg_date :: int
  seg_timestamp :: int

definition isoDate :: "int \<Rightarrow> int" where
  "isoDate ts = ts div 86400000"

text \<open>The object pushed onto \<^verbatim>\<open>allSegments\<close>, dated and keyed by the timestamp \<open>ts\<close>.\<close>

definition mkSegment :: "project \<Rightarrow> waypoint list \<Rightarrow> int \<Rightarrow> segment" where
  "mkSegment project currentSegment ts =
     \<lparr> seg_projectId = projectId project,
       seg_circle = circle project,
       seg_division = division project,
       seg_description = description project,
       seg_segment = currentSegment,
       seg_date = isoDate ts,
       seg_timestamp = ts \<rparr>"

text \<open>
  The body of \<^verbatim>\<open>employeeWaypoints.forEach\<close>, with the accumulator
  \<^verbatim>\<open>currentSegment\<close> as an argument; the result lists what the loop pushes onto
  \<^verbatim>\<open>allSegments\<close>. The index test \<^verbatim>\<open>idx === employeeWaypoints.length - 1\<close> holds
  exactly when no waypoint is left.
\<close>

fun scanSegments :: "project \<Rightarrow> waypoint list \<Rightarrow> waypoint list \<Rightarrow> segment list" where
  "scanSegments project currentSegment [] = []"
| "scanSegments project currentSegment (wp # rest) =
     (let cur1 = (if isStart wp then [wp]
                  else if currentSegment \<noteq> [] then currentSegment @ [wp]
                  else currentSegment);
          isLast = (rest = []);
          closing = (isEnd wp \<and> cur1 \<noteq> []);
          out1 = (if closing then [mkSegment project cur1 (timestamp wp)] else []);
          cur2 = (if closing then [] else cur1);
          opening = (isLast \<and> cur2 \<noteq> []);
          out2 = (if opening then [mkSegment project cur2 (timestamp (hd cur2))] else []);
          cur3 = (if opening then [] else cur2)
      in out1 @ out2 @ scanSegments project cur3 rest)"

text \<open>Step 1: the segments of every project, in the order of the projects.\<close>

definition allSegments :: "user list \<Rightarrow> string \<Rightarrow> project list \<Rightarrow> segment list" where
  "allSegments users empId projects =
     concat (map (\<lambda>project. scanSegments project [] (employeeWaypoints users empId project))
       projects)"

text \<open>
  Step 2: \<^verbatim>\<open>allSegments.sort((a, b) => new Date(b.timestamp) - new Date(a.timestamp))\<close>,
  a stable sort with the newest first.
\<close>

definition sortSegments :: "segment list \<Rightarrow> segment list" where
  "sortSegments segs = sort_key (\<lambda>s. - seg_timestamp s) segs"

text \<open>
  Step 3: \<^verbatim>\<open>dateGroups\<close> is an object whose keys are date strings; its keys are
  enumerated in the order of their creation, so it is an association list.
\<close>

definition pushDateGroup ::
    "segment \<Rightarrow> (int \<times> segment list) list \<Rightarrow> (int \<times> segment list) list" where
  "pushDateGroup s dateGroups =
     (let created = (if seg_date s \<in> set (map fst dateGroups) then dateGroups
                     else dateGroups @ [(seg_date s, [])])
      in map (\<lambda>(d, ss). if d = seg_date s then (d, ss @ [s]) else (d, ss)) created)"

definition groupByDate :: "segment list \<Rightarrow> (int \<times> segment list) list" where
  "groupByDate segs = foldl (\<lambda>dateGroups s. pushDateGroup s dateGroups) [] segs"

text \<open>
  \<^verbatim>\<open>Object.keys(dateGroups).sort((a, b) => new Date(b) - new Date(a))\<close>: the dates
  with the latest first.
\<close>

definition sortedDates :: "(int \<times> segment list) list \<Rightarrow> int list" where
  "sortedDates dateGroups = sort_key (\<lambda>d. - d) (map fst dateGroups)"

text \<open>
  The display shape of a waypoint and of its populated creator, without the \<^verbatim>\<open>_id\<close>.
  \<^verbatim>\<open>wp.gpsDetails?.length ? wp.gpsDetails : []\<close> is the list itself.
\<close>

record creatorView =
  c_empId :: string
  c_name :: string
  c_role :: string
  c_email :: "string option"

record waypointView =
  v_routeType :: string
  v_routeStartingPoint :: string
  v_routeEndingPoint :: string
  v_latitude :: jsnumber
  v_longitude :: jsnumber
  v_isStart :: bool
  v_isEnd :: bool
  v_image :: "string option"
  v_gpsDetails :: "detail list"
  v_poleDetails :: "detail list"
  v_timestamp :: int
  v_createdBy :: "creatorView option"

definition toView :: "user list \<Rightarrow> waypoint \<Rightarrow> waypointView" where
  "toView users wp =
     \<lparr> v_routeType = routeType wp,
       v_routeStartingPoint = routeStartingPoint wp,
       v_routeEndingPoint = routeEndingPoint wp,
       v_latitude = latitude wp,
       v_longitude = longitude wp,
       v_isStart = isStart wp,
       v_isEnd = isEnd wp,
       v_image = image wp,
       v_gpsDetails = gpsDetails wp,
       v_poleDetails = poleDetails wp,
       v_timestamp = timestamp wp,
       v_createdBy =
         (case populateCreatedBy users wp of
            None \<Rightarrow> None
          | Some u \<Rightarrow> Some \<lparr> c_empId = u_empId u, c_name = u_name u, c_role = u_role u,
                              c_email = u_email u \<rparr>) \<rparr>"

text \<open>A value of \<^verbatim>\<open>projectsMap\<close>: one project with its segments of one date.\<close>

record projectEntry =
  out_projectId :: string
  out_circle :: string
  out_division :: string
  out_description :: "string option"
  out_waypoints :: "waypointView list list"

text \<open>
  \<^verbatim>\<open>projectsMap\<close> is a Map, which keeps its keys in the order of their insertion and
  holds one entry for each key.
\<close>

definition pushProject :: "user list \<Rightarrow> segment \<Rightarrow> projectEntry list \<Rightarrow> projectEntry list" where
  "pushProject users s projectsMap =
     (let created = (if seg_projectId s \<in> set (map out_projectId projectsMap) then projectsMap
                     else projectsMap @
                       [\<lparr> out_projectId = seg_projectId s,
                          out_circle = seg_circle s,
                          out_division = seg_division s,
                          out_description = seg_description s,
                          out_waypoints = [] \<rparr>])
      in map (\<lambda>entry. if out_projectId entry = seg_projectId s
                        then entry\<lparr>out_waypoints :=
                               out_waypoints entry @ [map (toView users) (seg_segment s)]\<rparr>
                        else entry) created)"

definition projectsForDate :: "user list \<Rightarrow> segment list \<Rightarrow> projectEntry list" where
  "projectsForDate users segs = foldl (\<lambda>projectsMap s. pushProject users s projectsMap) [] segs"

text \<open>
  \<^verbatim>\<open>dateGroups[date]\<close>; \<open>date\<close> is one of the keys, so the lookup finds a list.
\<close>

definition dateGroup :: "(int \<times> segment list) list \<Rightarrow> int \<Rightarrow> segment list" where
  "dateGroup dateGroups date = (case map_of dateGroups date of None \<Rightarrow> [] | Some ss \<Rightarrow> ss)"

text \<open>Step 4: the entries of every date, in the order of \<open>sortedDates\<close>.\<close>

definition buildResult :: "user list \<Rightarrow> (int \<times> segment list) list \<Rightarrow> projectEntry list" where
  "buildResult users dateGroups =
     concat (map (\<lambda>date. projectsForDate users (dateGroup dateGroups date))
       (sortedDates dateGroups))"

text \<open>Steps 1 to 4 for the projects that \<^verbatim>\<open>Project.find\<close> returns.\<close>

definition reconstruct :: "user list \<Rightarrow> string \<Rightarrow> project list \<Rightarrow> projectEntry list" where
  "reconstruct users empId projects =
     buildResult users (groupByDate (sortSegments (allSegments users empId projects)))"

text \<open>The response body on success.\<close>

record report =
  r_empId :: string
  r_employeeName :: string
  r_projects :: "projectEntry list"

text \<open>
  The handler over the two collections: \<^verbatim>\<open>User.findOne({ empId })\<close>, then
  \<^verbatim>\<open>Project.find({ employees: user._id })\<close>, then the four steps.
\<close>

definition getAllWaypointsEmployee ::
    "user list \<Rightarrow> project list \<Rightarrow> string \<Rightarrow> (nat \<times> string) + report" where
  "getAllWaypointsEmployee users allProjects empId =
     (case find (\<lambda>u. u_empId u = empId) users of
        None \<Rightarrow> Inl (404, ''Employee not found'')
      | Some user \<Rightarrow>
          Inr \<lparr> r_empId = empId,
                r_employeeName = u_name user,
                r_projects =
                  reconstruct users empId
                    (filter (\<lambda>project. u_id user \<in> set (employees project)) allProjects) \<rparr>)"

text \<open>A waypoint with neither flag.\<close>

definition isMidpoint :: "waypoint \<Rightarrow> bool" where
  "isMidpoint wp = (\<not> isStart wp \<and> \<not> isEnd wp)"

text \<open>A segment is open when its last waypoint is not an end.\<close>

definition openSegment :: "segment \<Rightarrow> bool" where
  "openSegment s = (\<not> isEnd (last (seg_segment s)))"


text \<open>
  The project history without the waypoints of the employee \<open>other\<close>: every waypoint whose
  populated creator has that employee id is removed from its path.
\<close>

definition removeWaypointsOf :: "user list \<Rightarrow> string \<Rightarrow> project \<Rightarrow> project" where
  "removeWaypointsOf users other project =
     project\<lparr>waypoints := map (filter (\<lambda>wp. \<not> createdByEmp users other wp)) (waypoints project)\<rparr>"

text \<open>A request body that does not set both flags.\<close>

definition exclusiveFlags :: "body \<Rightarrow> bool" where
  "exclusiveFlags b = (\<not> (parseFlag (b_isStart b) \<and> parseFlag (b_isEnd b)))"

section \<open>Examples\<close>

text \<open>Example data: a project with two assigned employees, request bodies, and the waypoints
  that \<open>mkWaypoint\<close> builds from them.\<close>

definition exProject :: project where
  "exProject = \<lparr> projectId = ''Project_1'', circle = ''North'', division = ''D1'',
                  description = None, employees = [1, 2], waypoints = [] \<rparr>"

definition exBody :: "bool \<Rightarrow> bool \<Rightarrow> body" where
  "exBody s e = \<lparr> b_name = ''P'', b_description = None,
                  b_distanceFromPrevious = Num 40, b_latitude = Num 28, b_longitude = Num 77,
                  b_isStart = JBool s, b_isEnd = JBool e,
                  b_poleDetails = Falsy, b_gpsDetails = Falsy,
                  b_routeType = ''new'', b_routeStartingPoint = ''A'',
                  b_routeEndingPoint = ''B'' \<rparr>"

definition exWaypoint :: "bool \<Rightarrow> bool \<Rightarrow> nat \<Rightarrow> int \<Rightarrow> waypoint" where
  "exWaypoint s e employeeId now =
     \<lparr> name = ''P'', wp_description = None, distanceFromPrevious = Num 40,
       latitude = Num 28, longitude = Num 77, isStart = s, isEnd = e, image = None,
       poleDetails = [], gpsDetails = [], routeType = ''new'', routeStartingPoint = ''A'',
       routeEndingPoint = ''B'', createdBy = employeeId, timestamp = now,
       pathOwner = Some employeeId \<rparr>"

text \<open>Two employees.\<close>

definition exUsers :: "user list" where
  "exUsers = [\<lparr> u_id = 1, u_empId = ''E1'', u_name = ''Asha'', u_role = ''employee'', u_email = None \<rparr>,
              \<lparr> u_id = 2, u_empId = ''E2'', u_name = ''Ravi'', u_role = ''employee'', u_email = None \<rparr>]"

text \<open>
  A project with two closed paths of employee 1 on different days and, between them in
  storage order, a path of employee 2; and the display shapes of employee 1's waypoints.
\<close>

definition exTwoDays :: project where
  "exTwoDays = exProject\<lparr>waypoints :=
     [[exWaypoint True False 1 1000, exWaypoint False True 1 2000],
      [exWaypoint True False 2 3000],
      [exWaypoint True False 1 86400000, exWaypoint False True 1 86401000]]\<rparr>"

definition exView :: "bool \<Rightarrow> bool \<Rightarrow> int \<Rightarrow> waypointView" where
  "exView s e ts =
     \<lparr> v_routeType = ''new'', v_routeStartingPoint = ''A'', v_routeEndingPoint = ''B'',
       v_latitude = Num 28, v_longitude = Num 77,
       v_isStart = s, v_isEnd = e, v_image = None, v_gpsDetails = [], v_poleDetails = [],
       v_timestamp = ts,
       v_createdBy = Some \<lparr> c_empId = ''E1'', c_name = ''Asha'', c_role = ''employee'',
                             c_email = None \<rparr> \<rparr>"

definition exEntry :: "waypointView list list \<Rightarrow> projectEntry" where
  "exEntry vss = \<lparr> out_projectId = ''Project_1'', out_circle = ''North'', out_division = ''D1'',
                   out_description = None, out_waypoints = vss \<rparr>"

section \<open>Invariants of the path state machine\<close>

lemma ownedBy_snoc: "path \<noteq> [] \<Longrightarrow> ownedBy e (path @ [w]) = ownedBy e path"
  by (simp add: ownedBy_def)

lemma pushToLastUserPath_split:
  "ownedBy e x \<Longrightarrow> \<forall>z \<in> set zs. \<not> ownedBy e z \<Longrightarrow>
   pushToLastUserPath e w (ys @ x # zs) = ys @ (x @ [w]) # zs"
  by (induction ys) simp_all

lemma pathsInv_head: "pathsInv wps \<Longrightarrow> path \<in> set wps \<Longrightarrow> path \<noteq> [] \<and> isStart (hd path)"
  unfolding pathsInv_def by blast

lemma pathsInv_closed:
  "pathsInv wps \<Longrightarrow> path \<in> set (butlast (filter (ownedBy e) wps)) \<Longrightarrow> \<not> isOpen path"
  unfolding pathsInv_def by blast

lemma pathsInvI:
  "(\<And>path. path \<in> set wps \<Longrightarrow> path \<noteq> [] \<and> isStart (hd path)) \<Longrightarrow>
   (\<And>e path. path \<in> set (butlast (filter (ownedBy e) wps)) \<Longrightarrow> \<not> isOpen path) \<Longrightarrow>
   pathsInv wps"
  unfolding pathsInv_def by blast

lemma hasIncompletePath_split:
  assumes "hasIncompletePath (filter (ownedBy e) wps)"
  obtains ys x zs where "wps = ys @ x # zs" "ownedBy e x" "\<forall>z \<in> set zs. \<not> ownedBy e z" "isOpen x"
proof -
  from assms have ne: "filter (ownedBy e) wps \<noteq> []" by (simp add: hasIncompletePath_def)
  then have "\<exists>x \<in> set wps. ownedBy e x" by (simp add: filter_empty_conv)
  then obtain ys x zs where s: "wps = ys @ x # zs" "ownedBy e x" "\<forall>z \<in> set zs. \<not> ownedBy e z"
    by (rule split_list_last_propE)
  then have "filter (ownedBy e) wps = filter (ownedBy e) ys @ [x]" by simp
  with assms have o: "isOpen x" by (simp add: hasIncompletePath_def isOpen_def)
  show ?thesis by (rule that [OF s o])
qed

lemma addToPaths_Created:
  assumes "addToPaths p e w0 accepted = (Created w, p')"
  shows "w = w0 \<and> [] \<notin> set (waypoints p) \<and>
         ((isStart w \<and> \<not> hasIncompletePath (filter (ownedBy e) (waypoints p)) \<and>
             p' = p\<lparr>waypoints := waypoints p @ [[w]]\<rparr>) \<or>
          (\<not> isStart w \<and> hasIncompletePath (filter (ownedBy e) (waypoints p)) \<and>
             p' = p\<lparr>waypoints := pushToLastUserPath e w (waypoints p)\<rparr>))"
  using assms unfolding addToPaths_def userPaths_def
  by (auto split: if_splits)

lemma addWaypoint_addToPaths:
  assumes "addWaypoint p e b u now accepted = (Created w, p')"
  shows "\<exists>pd gd img. addToPaths p e (mkWaypoint b pd gd e img now) accepted = (Created w, p')"
  using assms unfolding addWaypoint_def
  by (auto split: if_splits option.splits)

lemma addWaypoint_Created:
  assumes "addWaypoint p e b u now accepted = (Created w, p')"
  shows "pathOwner w = Some e \<and> isStart w = parseFlag (b_isStart b) \<and>
         isEnd w = parseFlag (b_isEnd b) \<and> [] \<notin> set (waypoints p) \<and>
         ((isStart w \<and> \<not> hasIncompletePath (filter (ownedBy e) (waypoints p)) \<and>
             p' = p\<lparr>waypoints := waypoints p @ [[w]]\<rparr>) \<or>
          (\<not> isStart w \<and> hasIncompletePath (filter (ownedBy e) (waypoints p)) \<and>
             p' = p\<lparr>waypoints := pushToLastUserPath e w (waypoints p)\<rparr>))"
proof -
  from addWaypoint_addToPaths [OF assms] obtain pd gd img
    where a: "addToPaths p e (mkWaypoint b pd gd e img now) accepted = (Created w, p')"
    by blast
  note c = addToPaths_Created [OF a]
  from c have w: "w = mkWaypoint b pd gd e img now" by (rule conjunct1)
  have "pathOwner w = Some e" "isStart w = parseFlag (b_isStart b)"
       "isEnd w = parseFlag (b_isEnd b)"
    unfolding w by (simp_all add: mkWaypoint_def)
  with conjunct2 [OF c] show ?thesis by blast
qed

lemma addToPaths_Failed:
  "addToPaths p e w accepted = (Failed c m, p') \<Longrightarrow> p' = p"
  unfolding addToPaths_def userPaths_def
  by (simp split: if_splits)

lemma addWaypoint_Failed:
  "addWaypoint p e b u now accepted = (Failed c m, p') \<Longrightarrow> p' = p"
  unfolding addWaypoint_def
  by (auto split: if_splits option.splits dest: addToPaths_Failed)

lemma closed_all:
  assumes inv: "pathsInv wps" and no: "\<not> hasIncompletePath (filter (ownedBy e) wps)"
    and mem: "path \<in> set (filter (ownedBy e) wps)"
  shows "\<not> isOpen path"
proof -
  let ?ups = "filter (ownedBy e) wps"
  from mem have ne: "?ups \<noteq> []" by (auto simp: filter_empty_conv)
  then have "?ups = butlast ?ups @ [last ?ups]" by simp
  then have "set ?ups = set (butlast ?ups) \<union> {last ?ups}"
    by (metis list.simps(15) set_append empty_set Un_insert_right sup_bot.right_neutral)
  with mem have "path \<in> set (butlast ?ups) \<or> path = last ?ups" by blast
  moreover have "\<not> isOpen (last ?ups)"
    using no ne by (simp add: hasIncompletePath_def isOpen_def)
  ultimately show ?thesis using pathsInv_closed [OF inv] by blast
qed

lemma pathsInv_start:
  assumes inv: "pathsInv wps" and st: "isStart w" and own: "pathOwner w = Some e"
    and no: "\<not> hasIncompletePath (filter (ownedBy e) wps)"
  shows "pathsInv (wps @ [[w]])"
proof (rule pathsInvI)
  fix path assume "path \<in> set (wps @ [[w]])"
  then have "path \<in> set wps \<or> path = [w]" by auto
  then show "path \<noteq> [] \<and> isStart (hd path)"
    using pathsInv_head [OF inv] st by auto
next
  fix e' path assume mem: "path \<in> set (butlast (filter (ownedBy e') (wps @ [[w]])))"
  show "\<not> isOpen path"
  proof (cases "e' = e")
    case True
    with own have "filter (ownedBy e') (wps @ [[w]]) = filter (ownedBy e) wps @ [[w]]"
      by (simp add: ownedBy_def)
    with mem have "path \<in> set (filter (ownedBy e) wps)" by simp
    then show ?thesis by (rule closed_all [OF inv no])
  next
    case False
    with own have "filter (ownedBy e') (wps @ [[w]]) = filter (ownedBy e') wps"
      by (simp add: ownedBy_def)
    with mem show ?thesis using pathsInv_closed [OF inv] by simp
  qed
qed

lemma pathsInv_push:
  assumes inv: "pathsInv wps" and has: "hasIncompletePath (filter (ownedBy e) wps)"
  shows "pathsInv (pushToLastUserPath e w wps)"
proof -
  from has obtain ys x zs where s: "wps = ys @ x # zs" "ownedBy e x"
      "\<forall>z \<in> set zs. \<not> ownedBy e z" "isOpen x"
    by (rule hasIncompletePath_split)
  from s have eq: "pushToLastUserPath e w wps = ys @ (x @ [w]) # zs"
    by (simp add: pushToLastUserPath_split)
  from s have xin: "x \<in> set wps" by simp
  from pathsInv_head [OF inv xin] have xne: "x \<noteq> []" and xst: "isStart (hd x)" by simp_all
  have "pathsInv (ys @ (x @ [w]) # zs)"
  proof (rule pathsInvI)
    fix path assume "path \<in> set (ys @ (x @ [w]) # zs)"
    then have "path \<in> set wps \<or> path = x @ [w]" using s(1) by auto
    then show "path \<noteq> [] \<and> isStart (hd path)"
      using pathsInv_head [OF inv] xne xst by auto
  next
    fix e' path assume mem: "path \<in> set (butlast (filter (ownedBy e') (ys @ (x @ [w]) # zs)))"
    show "\<not> isOpen path"
    proof (cases "e' = e")
      case True
      have "filter (ownedBy e) (ys @ (x @ [w]) # zs) = filter (ownedBy e) ys @ [x @ [w]]"
        using s xne by (simp add: ownedBy_snoc)
      moreover have "filter (ownedBy e) wps = filter (ownedBy e) ys @ [x]"
        using s by simp
      ultimately have "path \<in> set (butlast (filter (ownedBy e) wps))"
        using mem True by simp
      then show ?thesis by (rule pathsInv_closed [OF inv])
    next
      case False
      with s(2) have "\<not> ownedBy e' x" by (simp add: ownedBy_def)
      then have "filter (ownedBy e') (ys @ (x @ [w]) # zs) = filter (ownedBy e') wps"
        using s(1) xne by (simp add: ownedBy_snoc)
      with mem show ?thesis using pathsInv_closed [OF inv] by simp
    qed
  qed
  with eq show ?thesis by simp
qed

lemma pathsInv_addWaypoint:
  assumes acc: "addWaypoint p e b u now accepted = (Created w, p')"
    and inv: "pathsInv (waypoints p)"
  shows "pathsInv (waypoints p')"
proof -
  note cr = addWaypoint_Created [OF acc]
  from cr have own: "pathOwner w = Some e" by (rule conjunct1)
  from cr have c: "(isStart w \<and> \<not> hasIncompletePath (filter (ownedBy e) (waypoints p)) \<and>
             p' = p\<lparr>waypoints := waypoints p @ [[w]]\<rparr>) \<or>
          (\<not> isStart w \<and> hasIncompletePath (filter (ownedBy e) (waypoints p)) \<and>
             p' = p\<lparr>waypoints := pushToLastUserPath e w (waypoints p)\<rparr>)"
    by blast
  from c show ?thesis
  proof
    assume a: "isStart w \<and> \<not> hasIncompletePath (filter (ownedBy e) (waypoints p)) \<and>
             p' = p\<lparr>waypoints := waypoints p @ [[w]]\<rparr>"
    then have "pathsInv (waypoints p @ [[w]])" using pathsInv_start [OF inv _ own] by simp
    with a show ?thesis by simp
  next
    assume a: "\<not> isStart w \<and> hasIncompletePath (filter (ownedBy e) (waypoints p)) \<and>
             p' = p\<lparr>waypoints := pushToLastUserPath e w (waypoints p)\<rparr>"
    then have "pathsInv (pushToLastUserPath e w (waypoints p))" using pathsInv_push [OF inv] by simp
    with a show ?thesis by simp
  qed
qed

lemma reachableBy_pathsInv: "reachableBy ok p \<Longrightarrow> pathsInv (waypoints p)"
proof (induction rule: reachableBy.induct)
  case (init p)
  then show ?case by (simp add: pathsInv_def)
next
  case (step p b employeeId u now accepted wp p')
  from step.hyps(3) step.IH show ?case by (rule pathsInv_addWaypoint)
qed

lemma one_open:
  assumes "\<forall>path \<in> set (butlast xs). \<not> isOpen path"
  shows "length (filter isOpen xs) \<le> 1"
proof (cases "xs = []")
  case True then show ?thesis by simp
next
  case False
  then have "xs = butlast xs @ [last xs]" by simp
  then have "filter isOpen xs = filter isOpen (butlast xs) @ filter isOpen [last xs]"
    by (metis filter_append)
  moreover from assms have "filter isOpen (butlast xs) = []" by (simp add: filter_empty_conv)
  ultimately show ?thesis by simp
qed

subsection \<open>Evaluating the handler\<close>

lemmas ex_defs = exProject_def exBody_def exWaypoint_def addWaypoint_def addToPaths_def
  userPaths_def parseJsonField_def imageUrlOf_def projectSave_def
  missingRequired_def isNullish_def parseFlag_def mkWaypoint_def hasIncompletePath_def
  ownedBy_def Let_def

lemma ex_start:
  "addWaypoint exProject 1 (exBody True False) NoFile 1000 True =
     (Created (exWaypoint True False 1 1000),
      exProject\<lparr>waypoints := [[exWaypoint True False 1 1000]]\<rparr>)"
  by (simp add: ex_defs)

lemma ex_mid:
  "addWaypoint (exProject\<lparr>waypoints := [[exWaypoint True False 1 1000]]\<rparr>) 1
       (exBody False False) NoFile 2000 True =
     (Created (exWaypoint False False 1 2000),
      exProject\<lparr>waypoints := [[exWaypoint True False 1 1000, exWaypoint False False 1 2000]]\<rparr>)"
  by (simp add: ex_defs)

lemma ex_both:
  "addWaypoint exProject 1 (exBody True True) NoFile 1000 True =
     (Created (exWaypoint True True 1 1000),
      exProject\<lparr>waypoints := [[exWaypoint True True 1 1000]]\<rparr>)"
  by (simp add: ex_defs)

lemma ex_start_again:
  "addWaypoint (exProject\<lparr>waypoints := [[exWaypoint True False 1 1000]]\<rparr>) 1
       (exBody True False) NoFile 2000 True =
     (Failed 400 ''Cannot start a new path. Your last path is not complete.'',
      exProject\<lparr>waypoints := [[exWaypoint True False 1 1000]]\<rparr>)"
  by (simp add: ex_defs)

lemma ex_mid_first:
  "addWaypoint exProject 1 (exBody False False) NoFile 1000 True =
     (Failed 400 ''No active path found. Start a new path with isStart: true before adding midpoints.'',
      exProject)"
  by (simp add: ex_defs)

lemma ex_reachable1: "reachableBy ok exProject"
  by (rule reachableBy.init) (simp add: exProject_def)

lemma ex_reachable2:
  "ok (exBody True False) \<Longrightarrow>
   reachableBy ok (exProject\<lparr>waypoints := [[exWaypoint True False 1 1000]]\<rparr>)"
  by (rule reachableBy.step [OF ex_reachable1 _ ex_start])

lemma ex_reachable3:
  "ok (exBody True False) \<Longrightarrow> ok (exBody False False) \<Longrightarrow>
   reachableBy ok (exProject\<lparr>waypoints :=
     [[exWaypoint True False 1 1000, exWaypoint False False 1 2000]]\<rparr>)"
  by (rule reachableBy.step [OF ex_reachable2 _ ex_mid])

lemma ex_reachable_both:
  "reachable (exProject\<lparr>waypoints := [[exWaypoint True True 1 1000]]\<rparr>)"
  unfolding reachable_def
  by (rule reachableBy.step [OF ex_reachable1 _ ex_both]) simp

lemma set_concat_push:
  "set (concat (pushToLastUserPath e w wps)) \<subseteq> insert w (set (concat wps))"
  by (induction wps) auto

lemma addWaypoint_waypoints:
  assumes "addWaypoint p e b u now accepted = (Created w, p')"
  shows "set (concat (waypoints p')) \<subseteq> insert w (set (concat (waypoints p)))"
proof -
  note cr = addWaypoint_Created [OF assms]
  from cr have "waypoints p' = waypoints p @ [[w]] \<or> waypoints p' = pushToLastUserPath e w (waypoints p)"
    by auto
  then show ?thesis
  proof
    assume "waypoints p' = waypoints p @ [[w]]"
    then show ?thesis by auto
  next
    assume "waypoints p' = pushToLastUserPath e w (waypoints p)"
    then show ?thesis using set_concat_push [of e w "waypoints p"] by simp
  qed
qed

lemma exclusive_step:
  assumes acc: "addWaypoint p e b u now accepted = (Created w, p')" and ok: "exclusiveFlags b"
    and ih: "\<forall>x \<in> set (concat (waypoints p)). \<not> (isStart x \<and> isEnd x)"
  shows "\<forall>x \<in> set (concat (waypoints p')). \<not> (isStart x \<and> isEnd x)"
proof
  fix x assume "x \<in> set (concat (waypoints p'))"
  with addWaypoint_waypoints [OF acc]
  have "x = w \<or> x \<in> set (concat (waypoints p))" by blast
  then show "\<not> (isStart x \<and> isEnd x)"
  proof
    assume "x = w"
    with ok addWaypoint_Created [OF acc] show ?thesis by (simp add: exclusiveFlags_def)
  next
    assume "x \<in> set (concat (waypoints p))"
    with ih show ?thesis by blast
  qed
qed

subsection \<open>Claims about the reachable states\<close>

text \<open>
  C1. In every project state reachable from a project without paths by accepted
  \<open>addWaypoint\<close> calls, each employee owns at most one open path, that is, at most one
  path whose last waypoint does not have \<open>isEnd\<close> set.
\<close>

theorem at_most_one_open_path:
  "reachable p \<Longrightarrow> length (filter isOpen (filter (ownedBy e) (waypoints p))) \<le> 1"
proof -
  assume "reachable p"
  then have "pathsInv (waypoints p)" by (simp add: reachable_def reachableBy_pathsInv)
  then have "\<forall>path \<in> set (butlast (filter (ownedBy e) (waypoints p))). \<not> isOpen path"
    using pathsInv_closed by blast
  then show ?thesis by (rule one_open)
qed

text \<open>The state after a start and a midpoint of employee 1.\<close>

theorem at_most_one_open_path_witness:
  "reachable (exProject\<lparr>waypoints :=
       [[exWaypoint True False 1 1000, exWaypoint False False 1 2000]]\<rparr>) \<and>
   length (filter isOpen (filter (ownedBy 1) (waypoints (exProject\<lparr>waypoints :=
       [[exWaypoint True False 1 1000, exWaypoint False False 1 2000]]\<rparr>)))) \<le> 1"
proof -
  have r: "reachable (exProject\<lparr>waypoints :=
       [[exWaypoint True False 1 1000, exWaypoint False False 1 2000]]\<rparr>)"
    unfolding reachable_def by (rule ex_reachable3) simp_all
  from r at_most_one_open_path [OF r, of 1] show ?thesis by blast
qed

text \<open>
  C10. In every reachable project state every path is non-empty and begins with a waypoint
  that has \<open>isStart\<close> set; so the ownership filter, which reads the first element of
  every path, never meets a missing element (\<open>userPaths\<close> is never \<open>None\<close>).
\<close>

theorem paths_nonempty_start_first:
  "reachable p \<Longrightarrow>
     (\<forall>path \<in> set (waypoints p). path \<noteq> [] \<and> isStart (hd path)) \<and>
     (\<forall>employeeId. userPaths (waypoints p) employeeId =
        Some (filter (ownedBy employeeId) (waypoints p)))"
proof -
  assume "reachable p"
  then have inv: "pathsInv (waypoints p)" by (simp add: reachable_def reachableBy_pathsInv)
  then have a: "\<forall>path \<in> set (waypoints p). path \<noteq> [] \<and> isStart (hd path)"
    using pathsInv_head by blast
  then have "[] \<notin> set (waypoints p)" by blast
  then have "\<forall>employeeId. userPaths (waypoints p) employeeId =
        Some (filter (ownedBy employeeId) (waypoints p))"
    by (simp add: userPaths_def)
  with a show ?thesis by blast
qed

text \<open>The state after one submission with both flags.\<close>

theorem paths_nonempty_start_first_witness:
  "reachable (exProject\<lparr>waypoints := [[exWaypoint True True 1 1000]]\<rparr>) \<and>
   list_all (\<lambda>path. path \<noteq> [] \<and> isStart (hd path))
     (waypoints (exProject\<lparr>waypoints := [[exWaypoint True True 1 1000]]\<rparr>)) \<and>
   userPaths (waypoints (exProject\<lparr>waypoints := [[exWaypoint True True 1 1000]]\<rparr>)) 2 =
     Some (filter (ownedBy 2)
       (waypoints (exProject\<lparr>waypoints := [[exWaypoint True True 1 1000]]\<rparr>)))"
  using ex_reachable_both paths_nonempty_start_first [OF ex_reachable_both]
  unfolding list_all_iff by blast

text \<open>
  C5, as stated, fails: the handler parses the two flags independently and never compares
  them, so a body with both flags set is dispatched as a start and stored with both flags.
\<close>

theorem flags_both_true_counterexample:
  "reachable (exProject\<lparr>waypoints := [[exWaypoint True True 1 1000]]\<rparr>) \<and>
   exWaypoint True True 1 1000 \<in>
     set (concat (waypoints (exProject\<lparr>waypoints := [[exWaypoint True True 1 1000]]\<rparr>))) \<and>
   isStart (exWaypoint True True 1 1000) \<and> isEnd (exWaypoint True True 1 1000)"
  using ex_reachable_both by (simp add: exWaypoint_def)

text \<open>
  C5, amended. In every project state reachable by accepted submissions none of which sets
  both flags, no stored waypoint has \<open>isStart\<close> and \<open>isEnd\<close> both true.
\<close>

theorem flags_exclusive_when_submitted_exclusive:
  "reachableBy exclusiveFlags p \<Longrightarrow>
     \<forall>wp \<in> set (concat (waypoints p)). \<not> (isStart wp \<and> isEnd wp)"
proof (induction rule: reachableBy.induct)
  case (init p)
  then show ?case by simp
next
  case (step p b employeeId u now accepted wp p')
  from step.hyps(3) step.hyps(2) step.IH show ?case by (rule exclusive_step)
qed

text \<open>The state after a start and a midpoint, neither with both flags.\<close>

theorem flags_exclusive_when_submitted_exclusive_witness:
  "reachableBy exclusiveFlags (exProject\<lparr>waypoints :=
       [[exWaypoint True False 1 1000, exWaypoint False False 1 2000]]\<rparr>) \<and>
   list_all (\<lambda>wp. \<not> (isStart wp \<and> isEnd wp)) (concat (waypoints (exProject\<lparr>waypoints :=
       [[exWaypoint True False 1 1000, exWaypoint False False 1 2000]]\<rparr>)))"
proof -
  have r: "reachableBy exclusiveFlags (exProject\<lparr>waypoints :=
       [[exWaypoint True False 1 1000, exWaypoint False False 1 2000]]\<rparr>)"
    by (rule ex_reachable3) (simp_all add: exclusiveFlags_def exBody_def parseFlag_def)
  from r flags_exclusive_when_submitted_exclusive [OF r] show ?thesis
    unfolding list_all_iff by blast
qed

subsection \<open>Claims about one submission\<close>

lemma addWaypoint_valid:
  assumes "employeeId \<in> set (employees p)"
    and "parseJsonField (b_poleDetails b) = Some parsedPoleDetails"
    and "parseJsonField (b_gpsDetails b) = Some parsedGpsDetails"
    and "\<not> missingRequired b"
    and "imageUrlOf u = Some imageUrl"
  shows "addWaypoint p employeeId b u now accepted =
     addToPaths p employeeId
       (mkWaypoint b parsedPoleDetails parsedGpsDetails employeeId imageUrl now) accepted"
  using assms by (simp add: addWaypoint_def)

lemma exBody_valid:
  "1 \<in> set (employees (exProject\<lparr>waypoints := wps\<rparr>)) \<and>
   parseJsonField (b_poleDetails (exBody s e)) = Some [] \<and>
   parseJsonField (b_gpsDetails (exBody s e)) = Some [] \<and>
   \<not> missingRequired (exBody s e) \<and>
   imageUrlOf NoFile = Some None"
  by (simp add: exProject_def exBody_def parseJsonField_def missingRequired_def isNullish_def
        imageUrlOf_def)

text \<open>
  C2. For a submission with \<open>isStart\<close> set that passes the handler's earlier checks (the
  employee is assigned, the detail fields parse, the required fields are there, the image
  upload does not throw), on a project whose paths are non-empty: it is rejected with a
  path conflict if and only if the employee's last owned path exists and its last waypoint
  is not an end, and then the response is the start conflict and the project is unchanged;
  otherwise a new path holding only the candidate waypoint is appended to the project's
  paths, and stored when the save succeeds (a failing save is answered with 500 and stores
  nothing).
\<close>

theorem start_conflict_iff_open_last_path:
  assumes "employeeId \<in> set (employees p)"
    and "parseJsonField (b_poleDetails b) = Some parsedPoleDetails"
    and "parseJsonField (b_gpsDetails b) = Some parsedGpsDetails"
    and "\<not> missingRequired b"
    and "imageUrlOf u = Some imageUrl"
    and "[] \<notin> set (waypoints p)"
    and "parseFlag (b_isStart b)"
  shows
    "(isPathConflict (fst (addWaypoint p employeeId b u now accepted)) \<longleftrightarrow>
        filter (ownedBy employeeId) (waypoints p) \<noteq> [] \<and>
        \<not> isEnd (last (last (filter (ownedBy employeeId) (waypoints p))))) \<and>
     (if filter (ownedBy employeeId) (waypoints p) \<noteq> [] \<and>
         \<not> isEnd (last (last (filter (ownedBy employeeId) (waypoints p))))
      then addWaypoint p employeeId b u now accepted =
         (Failed 400 ''Cannot start a new path. Your last path is not complete.'', p)
      else if projectSave
           (mkWaypoint b parsedPoleDetails parsedGpsDetails employeeId imageUrl now) accepted
      then addWaypoint p employeeId b u now accepted =
         (Created (mkWaypoint b parsedPoleDetails parsedGpsDetails employeeId imageUrl now),
          p\<lparr>waypoints := waypoints p @
            [[mkWaypoint b parsedPoleDetails parsedGpsDetails employeeId imageUrl now]]\<rparr>)
      else addWaypoint p employeeId b u now accepted = (Failed 500 ''Server error'', p))"
proof -
  let ?w = "mkWaypoint b parsedPoleDetails parsedGpsDetails employeeId imageUrl now"
  have st: "isStart ?w" using assms(7) by (simp add: mkWaypoint_def)
  have eq: "addWaypoint p employeeId b u now accepted = addToPaths p employeeId ?w accepted"
    using assms(1-5) by (rule addWaypoint_valid)
  show ?thesis
    unfolding eq using assms(6) st
    by (simp add: addToPaths_def userPaths_def hasIncompletePath_def isPathConflict_def)
qed

text \<open>A second start while the first path is open.\<close>

theorem start_conflict_iff_open_last_path_witness:
  "1 \<in> set (employees (exProject\<lparr>waypoints := [[exWaypoint True False 1 1000]]\<rparr>)) \<and>
   parseJsonField (b_poleDetails (exBody True False)) = Some [] \<and>
   parseJsonField (b_gpsDetails (exBody True False)) = Some [] \<and>
   \<not> missingRequired (exBody True False) \<and>
   imageUrlOf NoFile = Some None \<and>
   [] \<notin> set (waypoints (exProject\<lparr>waypoints := [[exWaypoint True False 1 1000]]\<rparr>)) \<and>
   parseFlag (b_isStart (exBody True False)) \<and>
   isPathConflict (fst (addWaypoint (exProject\<lparr>waypoints := [[exWaypoint True False 1 1000]]\<rparr>)
      1 (exBody True False) NoFile 2000 True)) \<and>
   addWaypoint (exProject\<lparr>waypoints := [[exWaypoint True False 1 1000]]\<rparr>)
      1 (exBody True False) NoFile 2000 True =
     (Failed 400 ''Cannot start a new path. Your last path is not complete.'',
      exProject\<lparr>waypoints := [[exWaypoint True False 1 1000]]\<rparr>)"
proof -
  let ?p = "exProject\<lparr>waypoints := [[exWaypoint True False 1 1000]]\<rparr>"
  note v = exBody_valid [of "[[exWaypoint True False 1 1000]]" True False]
  from v have h1: "1 \<in> set (employees ?p)" by (rule conjunct1)
  from v have h2: "parseJsonField (b_poleDetails (exBody True False)) = Some []" by blast
  from v have h3: "parseJsonField (b_gpsDetails (exBody True False)) = Some []" by blast
  from v have h4: "\<not> missingRequired (exBody True False)" by blast
  from v have h5: "imageUrlOf NoFile = Some None" by blast
  have h6: "[] \<notin> set (waypoints ?p)" by simp
  have h7: "parseFlag (b_isStart (exBody True False))"
    by (simp add: exBody_def parseFlag_def)
  have o: "filter (ownedBy 1) (waypoints ?p) \<noteq> [] \<and>
        \<not> isEnd (last (last (filter (ownedBy 1) (waypoints ?p))))"
    by (simp add: ownedBy_def exWaypoint_def)
  note t = start_conflict_iff_open_last_path [OF h1 h2 h3 h4 h5 h6 h7, of 2000 True]
  from t o have a: "isPathConflict (fst (addWaypoint ?p 1 (exBody True False) NoFile 2000 True))"
    by blast
  from conjunct2 [OF t] o
  have c: "addWaypoint ?p 1 (exBody True False) NoFile 2000 True =
     (Failed 400 ''Cannot start a new path. Your last path is not complete.'', ?p)"
    by (simp only: if_True simp_thms)
  from h1 h2 h3 h4 h5 h6 h7 a c show ?thesis by (intro conjI)
qed

text \<open>
  C3. For a submission with \<open>isEnd\<close> set or with neither flag set, the two flags being
  mutually exclusive, that passes the handler's earlier checks, on a project whose paths
  are non-empty: it is rejected with a path conflict if and only if the employee has no
  open last path, with the end conflict or the midpoint conflict and the project
  unchanged; otherwise the candidate is appended to that last path, which is closed by it
  exactly when the candidate has \<open>isEnd\<close> set, and the project is stored when the save
  succeeds (a failing save is answered with 500 and stores nothing).
\<close>

theorem end_or_midpoint_conflict_iff_no_open_path:
  assumes "employeeId \<in> set (employees p)"
    and "parseJsonField (b_poleDetails b) = Some parsedPoleDetails"
    and "parseJsonField (b_gpsDetails b) = Some parsedGpsDetails"
    and "\<not> missingRequired b"
    and "imageUrlOf u = Some imageUrl"
    and "[] \<notin> set (waypoints p)"
    and "exclusiveFlags b"
    and "parseFlag (b_isEnd b) \<or> (\<not> parseFlag (b_isStart b) \<and> \<not> parseFlag (b_isEnd b))"
  shows
    "(isPathConflict (fst (addWaypoint p employeeId b u now accepted)) \<longleftrightarrow>
        \<not> (filter (ownedBy employeeId) (waypoints p) \<noteq> [] \<and>
           \<not> isEnd (last (last (filter (ownedBy employeeId) (waypoints p)))))) \<and>
     (if filter (ownedBy employeeId) (waypoints p) \<noteq> [] \<and>
         \<not> isEnd (last (last (filter (ownedBy employeeId) (waypoints p))))
      then \<exists>before lastUserPath after.
         waypoints p = before @ lastUserPath # after \<and>
         lastUserPath = last (filter (ownedBy employeeId) (waypoints p)) \<and>
         filter (ownedBy employeeId) after = [] \<and>
         (if projectSave
              (mkWaypoint b parsedPoleDetails parsedGpsDetails employeeId imageUrl now) accepted
          then addWaypoint p employeeId b u now accepted =
            (Created (mkWaypoint b parsedPoleDetails parsedGpsDetails employeeId imageUrl now),
             p\<lparr>waypoints := before @
               (lastUserPath @
                  [mkWaypoint b parsedPoleDetails parsedGpsDetails employeeId imageUrl now]) #
               after\<rparr>)
          else addWaypoint p employeeId b u now accepted = (Failed 500 ''Server error'', p)) \<and>
         isOpen (lastUserPath @
             [mkWaypoint b parsedPoleDetails parsedGpsDetails employeeId imageUrl now]) =
           (\<not> parseFlag (b_isEnd b))
      else if parseFlag (b_isEnd b)
      then addWaypoint p employeeId b u now accepted =
         (Failed 400 ''Cannot end a path that hasn't started.'', p)
      else addWaypoint p employeeId b u now accepted =
         (Failed 400 ''No active path found. Start a new path with isStart: true before adding midpoints.'', p))"
proof -
  let ?w = "mkWaypoint b parsedPoleDetails parsedGpsDetails employeeId imageUrl now"
  let ?ups = "filter (ownedBy employeeId) (waypoints p)"
  let ?r = "addWaypoint p employeeId b u now accepted"
  from assms(7,8) have ns: "\<not> parseFlag (b_isStart b)"
    by (auto simp: exclusiveFlags_def)
  have st: "\<not> isStart ?w" using ns by (simp add: mkWaypoint_def)
  have en: "isEnd ?w = parseFlag (b_isEnd b)" by (simp add: mkWaypoint_def)
  have eq: "?r = addToPaths p employeeId ?w accepted"
    using assms(1-5) by (rule addWaypoint_valid)
  show ?thesis
  proof (cases "hasIncompletePath ?ups")
    case True
    then obtain ys x zs where s: "waypoints p = ys @ x # zs" "ownedBy employeeId x"
        "\<forall>z \<in> set zs. \<not> ownedBy employeeId z" "isOpen x"
      by (rule hasIncompletePath_split)
    from s have z: "filter (ownedBy employeeId) zs = []" by (simp add: filter_empty_conv)
    from s z have l: "x = last ?ups" by simp
    from s have pu: "pushToLastUserPath employeeId ?w (waypoints p) = ys @ (x @ [?w]) # zs"
      by (simp add: pushToLastUserPath_split)
    have r: "if projectSave ?w accepted
        then ?r = (Created ?w, p\<lparr>waypoints := ys @ (x @ [?w]) # zs\<rparr>)
        else ?r = (Failed 500 ''Server error'', p)"
      unfolding eq using assms(6) st True pu
      by (simp add: addToPaths_def userPaths_def)
    have o: "isOpen (x @ [?w]) = (\<not> parseFlag (b_isEnd b))"
      by (simp add: isOpen_def en)
    have ex: "\<exists>before lastUserPath after.
         waypoints p = before @ lastUserPath # after \<and>
         lastUserPath = last ?ups \<and>
         filter (ownedBy employeeId) after = [] \<and>
         (if projectSave ?w accepted
          then ?r = (Created ?w, p\<lparr>waypoints := before @ (lastUserPath @ [?w]) # after\<rparr>)
          else ?r = (Failed 500 ''Server error'', p)) \<and>
         isOpen (lastUserPath @ [?w]) = (\<not> parseFlag (b_isEnd b))"
      using s(1) l z r o by blast
    have nc: "\<not> isPathConflict (fst ?r)"
      using r by (auto simp: isPathConflict_def split: if_splits)
    from True have c: "?ups \<noteq> [] \<and> \<not> isEnd (last (last ?ups))"
      by (simp add: hasIncompletePath_def)
    from c nc ex show ?thesis by (simp only: if_True simp_thms)
  next
    case False
    then have c: "\<not> (?ups \<noteq> [] \<and> \<not> isEnd (last (last ?ups)))"
      by (simp add: hasIncompletePath_def)
    have rj: "if parseFlag (b_isEnd b)
        then ?r = (Failed 400 ''Cannot end a path that hasn't started.'', p)
        else ?r = (Failed 400 ''No active path found. Start a new path with isStart: true before adding midpoints.'', p)"
      unfolding eq using assms(6) st en False
      by (simp add: addToPaths_def userPaths_def)
    then have pc: "isPathConflict (fst ?r)"
      by (auto simp: isPathConflict_def split: if_splits)
    from c pc rj show ?thesis by (simp only: if_False simp_thms)
  qed
qed

text \<open>A midpoint on a project without paths.\<close>

theorem end_or_midpoint_conflict_iff_no_open_path_witness:
  "1 \<in> set (employees (exProject\<lparr>waypoints := []\<rparr>)) \<and>
   parseJsonField (b_poleDetails (exBody False False)) = Some [] \<and>
   parseJsonField (b_gpsDetails (exBody False False)) = Some [] \<and>
   \<not> missingRequired (exBody False False) \<and>
   imageUrlOf NoFile = Some None \<and>
   [] \<notin> set (waypoints (exProject\<lparr>waypoints := []\<rparr>)) \<and>
   exclusiveFlags (exBody False False) \<and>
   (parseFlag (b_isEnd (exBody False False)) \<or>
    \<not> parseFlag (b_isStart (exBody False False)) \<and> \<not> parseFlag (b_isEnd (exBody False False))) \<and>
   isPathConflict (fst (addWaypoint (exProject\<lparr>waypoints := []\<rparr>) 1 (exBody False False)
      NoFile 1000 True)) \<and>
   addWaypoint (exProject\<lparr>waypoints := []\<rparr>) 1 (exBody False False) NoFile 1000 True =
     (Failed 400 ''No active path found. Start a new path with isStart: true before adding midpoints.'',
      exProject\<lparr>waypoints := []\<rparr>)"
proof -
  let ?p = "exProject\<lparr>waypoints := []\<rparr>"
  note v = exBody_valid [of "[]" False False]
  from v have h1: "1 \<in> set (employees ?p)" by (rule conjunct1)
  from v have h2: "parseJsonField (b_poleDetails (exBody False False)) = Some []" by blast
  from v have h3: "parseJsonField (b_gpsDetails (exBody False False)) = Some []" by blast
  from v have h4: "\<not> missingRequired (exBody False False)" by blast
  from v have h5: "imageUrlOf NoFile = Some None" by blast
  have h6: "[] \<notin> set (waypoints ?p)" by simp
  have h7: "exclusiveFlags (exBody False False)"
    by (simp add: exclusiveFlags_def exBody_def parseFlag_def)
  have f: "\<not> parseFlag (b_isStart (exBody False False))"
      "\<not> parseFlag (b_isEnd (exBody False False))"
    by (simp_all add: exBody_def parseFlag_def)
  then have h8: "parseFlag (b_isEnd (exBody False False)) \<or>
    \<not> parseFlag (b_isStart (exBody False False)) \<and> \<not> parseFlag (b_isEnd (exBody False False))"
    by blast
  have o: "\<not> (filter (ownedBy 1) (waypoints ?p) \<noteq> [] \<and>
     \<not> isEnd (last (last (filter (ownedBy 1) (waypoints ?p)))))"
    by simp
  note t = end_or_midpoint_conflict_iff_no_open_path [OF h1 h2 h3 h4 h5 h6 h7 h8, of 1000 True]
  from t o have a: "isPathConflict (fst (addWaypoint ?p 1 (exBody False False) NoFile 1000 True))"
    by blast
  from conjunct2 [OF t] o f(2)
  have c: "addWaypoint ?p 1 (exBody False False) NoFile 1000 True =
     (Failed 400 ''No active path found. Start a new path with isStart: true before adding midpoints.'', ?p)"
    by (simp only: if_False simp_thms)
  from h1 h2 h3 h4 h5 h6 h7 h8 a c show ?thesis by (intro conjI)
qed

text \<open>
  C6. Whenever a submission is rejected with a path conflict, the stored project is the
  project as it was: no waypoint is appended and no path is created.
\<close>

theorem path_conflict_leaves_project_unchanged:
  "isPathConflict (fst (addWaypoint p employeeId b u now accepted)) \<Longrightarrow>
   snd (addWaypoint p employeeId b u now accepted) = p"
proof -
  assume a: "isPathConflict (fst (addWaypoint p employeeId b u now accepted))"
  obtain r p' where rp: "addWaypoint p employeeId b u now accepted = (r, p')"
    by (cases "addWaypoint p employeeId b u now accepted")
  with a obtain m where "r = Failed 400 m" by (auto simp: isPathConflict_def)
  with rp have "p' = p" using addWaypoint_Failed by blast
  with rp show ?thesis by simp
qed

theorem path_conflict_leaves_project_unchanged_witness:
  "isPathConflict (fst (addWaypoint exProject 1 (exBody False False) NoFile 1000 True)) \<and>
   snd (addWaypoint exProject 1 (exBody False False) NoFile 1000 True) = exProject"
proof -
  have h: "isPathConflict (fst (addWaypoint exProject 1 (exBody False False) NoFile 1000 True))"
    by (simp only: ex_mid_first fst_conv isPathConflict_def simp_thms)
  from h path_conflict_leaves_project_unchanged [OF h] show ?thesis by blast
qed

section \<open>The segment scan\<close>

lemma scan_midpoints:
  "currentSegment \<noteq> [] \<Longrightarrow> list_all isMidpoint ms \<Longrightarrow> rest \<noteq> [] \<Longrightarrow>
   scanSegments p currentSegment (ms @ rest) = scanSegments p (currentSegment @ ms) rest"
proof (induction ms arbitrary: currentSegment)
  case Nil
  then show ?case by simp
next
  case (Cons m ms)
  from Cons.prems have m: "\<not> isStart m" "\<not> isEnd m"
    by (simp_all add: isMidpoint_def)
  from Cons.prems have ms: "list_all isMidpoint ms" by simp
  from Cons.prems(3) have ne: "ms @ rest \<noteq> []" by simp
  have "scanSegments p currentSegment ((m # ms) @ rest) =
        scanSegments p (currentSegment @ [m]) (ms @ rest)"
    using m ne Cons.prems(1) by (simp add: Let_def)
  also have "\<dots> = scanSegments p ((currentSegment @ [m]) @ ms) rest"
    by (rule Cons.IH) (simp_all add: ms Cons.prems(3))
  finally show ?case by simp
qed

lemma scan_open_tail:
  "currentSegment \<noteq> [] \<Longrightarrow> list_all isMidpoint ms \<Longrightarrow> ms \<noteq> [] \<Longrightarrow>
   scanSegments p currentSegment ms =
     [mkSegment p (currentSegment @ ms) (timestamp (hd currentSegment))]"
proof -
  assume cur: "currentSegment \<noteq> []" and mids: "list_all isMidpoint ms" and ne: "ms \<noteq> []"
  from ne have sp: "ms = butlast ms @ [last ms]" by simp
  from mids have a: "list_all isMidpoint (butlast ms)"
    by (metis sp list_all_append)
  from mids ne have l: "\<not> isStart (last ms)" "\<not> isEnd (last ms)"
    by (simp_all add: list_all_iff isMidpoint_def)
  have "scanSegments p currentSegment (butlast ms @ [last ms]) =
        scanSegments p (currentSegment @ butlast ms) [last ms]"
    by (rule scan_midpoints [OF cur a]) simp
  also have "\<dots> = [mkSegment p ((currentSegment @ butlast ms) @ [last ms])
                       (timestamp (hd (currentSegment @ butlast ms @ [last ms])))]"
    using l cur by (simp add: Let_def)
  finally show ?thesis using sp cur by simp
qed

lemma scan_closed_path:
  assumes "isStart s" "\<not> isEnd s" "list_all isMidpoint ms" "\<not> isStart e" "isEnd e"
  shows "scanSegments p currentSegment (s # ms @ [e]) = [mkSegment p (s # ms @ [e]) (timestamp e)]"
proof -
  have "scanSegments p currentSegment (s # ms @ [e]) = scanSegments p [s] (ms @ [e])"
    using assms(1,2) by (simp add: Let_def)
  also have "\<dots> = scanSegments p ([s] @ ms) [e]"
    by (rule scan_midpoints) (simp_all add: assms(3))
  also have "\<dots> = [mkSegment p (s # ms @ [e]) (timestamp e)]"
    using assms(4,5) by (simp add: Let_def)
  finally show ?thesis .
qed

lemma scan_unterminated:
  assumes "isStart s" "\<not> isEnd s" "list_all isMidpoint ms"
  shows "filter openSegment (scanSegments p currentSegment (pre @ s # ms)) =
           [mkSegment p (s # ms) (timestamp s)]"
proof (induction pre arbitrary: currentSegment)
  case Nil
  have op: "openSegment (mkSegment p (s # ms) (timestamp s))"
    using assms(2,3) by (cases "ms = []") (simp_all add: openSegment_def mkSegment_def list_all_iff isMidpoint_def)
  show ?case
  proof (cases "ms = []")
    case True
    then show ?thesis using assms(1,2) op by (simp add: Let_def)
  next
    case False
    have "scanSegments p currentSegment (s # ms) = scanSegments p [s] ms"
      using assms(1,2) False by (simp add: Let_def)
    also have "\<dots> = [mkSegment p ([s] @ ms) (timestamp (hd [s]))]"
      by (rule scan_open_tail) (simp_all add: assms(3) False)
    finally show ?thesis using op by simp
  qed
next
  case (Cons w pre)
  let ?cur1 = "if isStart w then [w] else if currentSegment \<noteq> [] then currentSegment @ [w]
               else currentSegment"
  show ?case
  proof (cases "isEnd w \<and> ?cur1 \<noteq> []")
    case True
    then have l: "last ?cur1 = w" by (simp split: if_splits)
    have "scanSegments p currentSegment ((w # pre) @ s # ms) =
          mkSegment p ?cur1 (timestamp w) # scanSegments p [] (pre @ s # ms)"
      using True by (simp add: Let_def)
    moreover have "\<not> openSegment (mkSegment p ?cur1 (timestamp w))"
      using True l by (simp add: openSegment_def mkSegment_def)
    ultimately show ?thesis using Cons.IH [of "[]"] by simp
  next
    case False
    then have "scanSegments p currentSegment ((w # pre) @ s # ms) =
          scanSegments p ?cur1 (pre @ s # ms)"
      by (auto simp: Let_def)
    then show ?thesis using Cons.IH [of ?cur1] by simp
  qed
qed

text \<open>
  C4. When the waypoints of an employee in a project, flattened in storage order, are one
  closed path \<open>[s, m1, m2, e]\<close> (a start, two midpoints, an end), the scan emits exactly
  one segment: it holds the four waypoints in that order, it is closed, and its date is the
  calendar day of the timestamp of the end waypoint, which is also its sort key.
\<close>

theorem closed_path_round_trip:
  assumes "employeeWaypoints users empId p = [s, m1, m2, e]"
    and "isStart s" and "\<not> isEnd s"
    and "\<not> isStart m1" and "\<not> isEnd m1" and "\<not> isStart m2" and "\<not> isEnd m2"
    and "\<not> isStart e" and "isEnd e"
  shows "allSegments users empId [p] =
     [\<lparr> seg_projectId = projectId p, seg_circle = circle p, seg_division = division p,
        seg_description = description p, seg_segment = [s, m1, m2, e],
        seg_date = isoDate (timestamp e), seg_timestamp = timestamp e \<rparr>] \<and>
     filter openSegment (allSegments users empId [p]) = []"
proof -
  have "list_all isMidpoint [m1, m2]" using assms(4-7) by (simp add: isMidpoint_def)
  from scan_closed_path [OF assms(2,3) this assms(8,9), of p "[]"] assms(1)
  have eq: "allSegments users empId [p] = [mkSegment p [s, m1, m2, e] (timestamp e)]"
    by (simp add: allSegments_def)
  have "\<not> openSegment (mkSegment p [s, m1, m2, e] (timestamp e))"
    using assms(9) by (simp add: openSegment_def mkSegment_def)
  with eq show ?thesis by (simp add: mkSegment_def)
qed

text \<open>
  C8. When the waypoints of an employee in a project end with an unterminated path (a start
  followed by midpoints only), the scan emits exactly one open segment: that path, with
  the date and the sort key of the timestamp of its first waypoint.
\<close>

theorem unterminated_path_one_open_segment:
  assumes "employeeWaypoints users empId p = pre @ s # ms"
    and "isStart s" and "\<not> isEnd s" and "list_all isMidpoint ms"
  shows "filter openSegment (allSegments users empId [p]) =
     [\<lparr> seg_projectId = projectId p, seg_circle = circle p, seg_division = division p,
        seg_description = description p, seg_segment = s # ms,
        seg_date = isoDate (timestamp s), seg_timestamp = timestamp s \<rparr>]"
  using scan_unterminated [OF assms(2-4), of p "[]" pre] assms(1)
  by (simp add: allSegments_def mkSegment_def)

lemmas ex_scan_defs = employeeWaypoints_def createdByEmp_def populateCreatedBy_def exUsers_def
  exWaypoint_def exProject_def

text \<open>A path that begins on day 0 and ends on day 1.\<close>

theorem closed_path_round_trip_witness:
  "employeeWaypoints exUsers ''E1'' (exProject\<lparr>waypoints :=
       [[exWaypoint True False 1 86399000, exWaypoint False False 1 86399500,
         exWaypoint False False 1 86400000, exWaypoint False True 1 86401000]]\<rparr>) =
     [exWaypoint True False 1 86399000, exWaypoint False False 1 86399500,
      exWaypoint False False 1 86400000, exWaypoint False True 1 86401000] \<and>
   isStart (exWaypoint True False 1 86399000) \<and> \<not> isEnd (exWaypoint True False 1 86399000) \<and>
   \<not> isStart (exWaypoint False False 1 86399500) \<and> \<not> isEnd (exWaypoint False False 1 86399500) \<and>
   \<not> isStart (exWaypoint False False 1 86400000) \<and> \<not> isEnd (exWaypoint False False 1 86400000) \<and>
   \<not> isStart (exWaypoint False True 1 86401000) \<and> isEnd (exWaypoint False True 1 86401000) \<and>
   allSegments exUsers ''E1'' [exProject\<lparr>waypoints :=
       [[exWaypoint True False 1 86399000, exWaypoint False False 1 86399500,
         exWaypoint False False 1 86400000, exWaypoint False True 1 86401000]]\<rparr>] =
     [\<lparr> seg_projectId = ''Project_1'', seg_circle = ''North'', seg_division = ''D1'',
        seg_description = None,
        seg_segment = [exWaypoint True False 1 86399000, exWaypoint False False 1 86399500,
          exWaypoint False False 1 86400000, exWaypoint False True 1 86401000],
        seg_date = 1, seg_timestamp = 86401000 \<rparr>]"
proof -
  let ?p = "exProject\<lparr>waypoints :=
       [[exWaypoint True False 1 86399000, exWaypoint False False 1 86399500,
         exWaypoint False False 1 86400000, exWaypoint False True 1 86401000]]\<rparr>"
  have h1: "employeeWaypoints exUsers ''E1'' ?p =
     [exWaypoint True False 1 86399000, exWaypoint False False 1 86399500,
      exWaypoint False False 1 86400000, exWaypoint False True 1 86401000]"
    by (simp add: ex_scan_defs)
  have h2: "isStart (exWaypoint True False 1 86399000)" by (simp add: exWaypoint_def)
  have h3: "\<not> isEnd (exWaypoint True False 1 86399000)" by (simp add: exWaypoint_def)
  have h4: "\<not> isStart (exWaypoint False False 1 86399500)" by (simp add: exWaypoint_def)
  have h5: "\<not> isEnd (exWaypoint False False 1 86399500)" by (simp add: exWaypoint_def)
  have h6: "\<not> isStart (exWaypoint False False 1 86400000)" by (simp add: exWaypoint_def)
  have h7: "\<not> isEnd (exWaypoint False False 1 86400000)" by (simp add: exWaypoint_def)
  have h8: "\<not> isStart (exWaypoint False True 1 86401000)" by (simp add: exWaypoint_def)
  have h9: "isEnd (exWaypoint False True 1 86401000)" by (simp add: exWaypoint_def)
  have t: "timestamp (exWaypoint False True 1 86401000) = 86401000" by (simp add: exWaypoint_def)
  have d: "isoDate 86401000 = 1" by (simp add: isoDate_def)
  have q: "projectId ?p = ''Project_1'' \<and> circle ?p = ''North'' \<and> division ?p = ''D1'' \<and>
           description ?p = None"
    by (simp add: exProject_def)
  from conjunct1 [OF closed_path_round_trip [OF h1 h2 h3 h4 h5 h6 h7 h8 h9]]
  have "allSegments exUsers ''E1'' [?p] =
     [\<lparr> seg_projectId = ''Project_1'', seg_circle = ''North'', seg_division = ''D1'',
        seg_description = None,
        seg_segment = [exWaypoint True False 1 86399000, exWaypoint False False 1 86399500,
          exWaypoint False False 1 86400000, exWaypoint False True 1 86401000],
        seg_date = 1, seg_timestamp = 86401000 \<rparr>]"
    by (simp only: t d q)
  with h1 h2 h3 h4 h5 h6 h7 h8 h9 show ?thesis by blast
qed

text \<open>A closed path, a path of another employee, and an open path of two waypoints.\<close>

theorem unterminated_path_one_open_segment_witness:
  "employeeWaypoints exUsers ''E1'' (exProject\<lparr>waypoints :=
       [[exWaypoint True False 1 1000, exWaypoint False True 1 2000],
        [exWaypoint True False 2 3000],
        [exWaypoint True False 1 86400000, exWaypoint False False 1 172800000]]\<rparr>) =
     [exWaypoint True False 1 1000, exWaypoint False True 1 2000] @
       exWaypoint True False 1 86400000 # [exWaypoint False False 1 172800000] \<and>
   isStart (exWaypoint True False 1 86400000) \<and> \<not> isEnd (exWaypoint True False 1 86400000) \<and>
   list_all isMidpoint [exWaypoint False False 1 172800000] \<and>
   filter openSegment (allSegments exUsers ''E1'' [exProject\<lparr>waypoints :=
       [[exWaypoint True False 1 1000, exWaypoint False True 1 2000],
        [exWaypoint True False 2 3000],
        [exWaypoint True False 1 86400000, exWaypoint False False 1 172800000]]\<rparr>]) =
     [\<lparr> seg_projectId = ''Project_1'', seg_circle = ''North'', seg_division = ''D1'',
        seg_description = None,
        seg_segment = [exWaypoint True False 1 86400000, exWaypoint False False 1 172800000],
        seg_date = 1, seg_timestamp = 86400000 \<rparr>]"
proof -
  let ?p = "exProject\<lparr>waypoints :=
       [[exWaypoint True False 1 1000, exWaypoint False True 1 2000],
        [exWaypoint True False 2 3000],
        [exWaypoint True False 1 86400000, exWaypoint False False 1 172800000]]\<rparr>"
  have h1: "employeeWaypoints exUsers ''E1'' ?p =
     [exWaypoint True False 1 1000, exWaypoint False True 1 2000] @
       exWaypoint True False 1 86400000 # [exWaypoint False False 1 172800000]"
    by (simp add: ex_scan_defs)
  have h2: "isStart (exWaypoint True False 1 86400000)" by (simp add: exWaypoint_def)
  have h3: "\<not> isEnd (exWaypoint True False 1 86400000)" by (simp add: exWaypoint_def)
  have h4: "list_all isMidpoint [exWaypoint False False 1 172800000]"
    by (simp add: isMidpoint_def exWaypoint_def)
  have t: "timestamp (exWaypoint True False 1 86400000) = 86400000" by (simp add: exWaypoint_def)
  have d: "isoDate 86400000 = 1" by (simp add: isoDate_def)
  have q: "projectId ?p = ''Project_1'' \<and> circle ?p = ''North'' \<and> division ?p = ''D1'' \<and>
           description ?p = None"
    by (simp add: exProject_def)
  from unterminated_path_one_open_segment [OF h1 h2 h3 h4]
  have "filter openSegment (allSegments exUsers ''E1'' [?p]) =
     [\<lparr> seg_projectId = ''Project_1'', seg_circle = ''North'', seg_division = ''D1'',
        seg_description = None,
        seg_segment = [exWaypoint True False 1 86400000, exWaypoint False False 1 172800000],
        seg_date = 1, seg_timestamp = 86400000 \<rparr>]"
    by (simp only: t d q)
  with h1 h2 h3 h4 show ?thesis by blast
qed

section \<open>Grouping by date and by project\<close>


lemma map_of_update_values:
  "map_of (map (\<lambda>(d, ss). if d = k then (d, f ss) else (d, ss)) g) d =
     (if d = k then map_option f (map_of g d) else map_of g d)"
  by (induction g) auto

lemma dateGroup_push:
  "dateGroup (pushDateGroup s g) d =
     (if d = seg_date s then dateGroup g d @ [s] else dateGroup g d)"
proof (cases "seg_date s \<in> set (map fst g)")
  case True
  then obtain ss where "map_of g (seg_date s) = Some ss"
    by (metis list.set_map map_of_eq_None_iff not_Some_eq)
  with True show ?thesis
    by (simp add: dateGroup_def pushDateGroup_def Let_def map_of_update_values split: option.splits)
next
  case False
  then have n: "map_of g (seg_date s) = None" by (simp add: map_of_eq_None_iff)
  with False show ?thesis
    by (auto simp: dateGroup_def pushDateGroup_def Let_def map_of_update_values
          map_add_def split: option.splits)
qed

lemma groupByDate_snoc: "groupByDate (segs @ [s]) = pushDateGroup s (groupByDate segs)"
  by (simp add: groupByDate_def)



lemma dateGroup_groupByDate:
  "dateGroup (groupByDate segs) d = filter (\<lambda>s. seg_date s = d) segs"
proof (induction segs rule: rev_induct)
  case Nil
  then show ?case by (simp add: groupByDate_def dateGroup_def)
next
  case (snoc s segs)
  then show ?case unfolding groupByDate_snoc dateGroup_push by auto
qed

lemma pushProject_set:
  "set (pushProject users s m) =
     (\<lambda>entry. if out_projectId entry = seg_projectId s
               then entry\<lparr>out_waypoints :=
                      out_waypoints entry @ [map (toView users) (seg_segment s)]\<rparr>
               else entry) `
     (if seg_projectId s \<in> set (map out_projectId m) then set m
      else insert \<lparr> out_projectId = seg_projectId s, out_circle = seg_circle s,
                     out_division = seg_division s, out_description = seg_description s,
                     out_waypoints = [] \<rparr> (set m))"
  by (simp add: pushProject_def Let_def)



lemma projectsForDate_snoc:
  "projectsForDate users (segs @ [s]) = pushProject users s (projectsForDate users segs)"
  by (simp add: projectsForDate_def)


lemma pushProject_views:
  assumes "entry \<in> set (pushProject users s m)" and "vs \<in> set (out_waypoints entry)"
  shows "vs = map (toView users) (seg_segment s) \<or> (\<exists>e \<in> set m. vs \<in> set (out_waypoints e))"
  using assms unfolding pushProject_set by (auto split: if_splits)

lemma projectsForDate_views:
  "entry \<in> set (projectsForDate users segs) \<Longrightarrow> vs \<in> set (out_waypoints entry) \<Longrightarrow>
   \<exists>s \<in> set segs. vs = map (toView users) (seg_segment s)"
proof (induction segs arbitrary: entry rule: rev_induct)
  case Nil
  then show ?case by (simp add: projectsForDate_def)
next
  case (snoc s segs)
  from snoc.prems have "vs = map (toView users) (seg_segment s) \<or>
      (\<exists>e \<in> set (projectsForDate users segs). vs \<in> set (out_waypoints e))"
    unfolding projectsForDate_snoc by (rule pushProject_views)
  then show ?case
  proof
    assume "vs = map (toView users) (seg_segment s)"
    then show ?thesis by simp
  next
    assume "\<exists>e \<in> set (projectsForDate users segs). vs \<in> set (out_waypoints e)"
    then obtain e where "e \<in> set (projectsForDate users segs)" "vs \<in> set (out_waypoints e)"
      by blast
    then have "\<exists>s \<in> set segs. vs = map (toView users) (seg_segment s)" by (rule snoc.IH)
    then show ?thesis by auto
  qed
qed

section \<open>Ordering of the output\<close>








lemma ex_two_days_segments:
  "allSegments exUsers ''E1'' [exTwoDays] =
     [mkSegment exProject [exWaypoint True False 1 1000, exWaypoint False True 1 2000] 2000,
      mkSegment exProject [exWaypoint True False 1 86400000, exWaypoint False True 1 86401000]
        86401000]"
  by (simp add: allSegments_def employeeWaypoints_def createdByEmp_def populateCreatedBy_def
        exUsers_def exWaypoint_def exProject_def exTwoDays_def Let_def mkSegment_def)

lemma ex_two_days_reconstruct:
  "reconstruct exUsers ''E1'' [exTwoDays] =
     [exEntry [[exView True False 86400000, exView False True 86401000]],
      exEntry [[exView True False 1000, exView False True 2000]]]"
  unfolding reconstruct_def ex_two_days_segments
  by (simp add: sortSegments_def groupByDate_def pushDateGroup_def sortedDates_def
        buildResult_def dateGroup_def projectsForDate_def pushProject_def toView_def
        populateCreatedBy_def exUsers_def exWaypoint_def exProject_def mkSegment_def
        isoDate_def exEntry_def exView_def Let_def)



section \<open>Separation of employees\<close>

lemma createdByEmp_unique:
  "createdByEmp users empId wp \<Longrightarrow> other \<noteq> empId \<Longrightarrow> \<not> createdByEmp users other wp"
  by (auto simp: createdByEmp_def split: option.splits)

lemma employeeWaypoints_remove:
  assumes "other \<noteq> empId"
  shows "employeeWaypoints users empId (removeWaypointsOf users other p) =
         employeeWaypoints users empId p"
proof -
  have "concat (map (filter (\<lambda>wp. \<not> createdByEmp users other wp)) (waypoints p)) =
        filter (\<lambda>wp. \<not> createdByEmp users other wp) (concat (waypoints p))"
    by (simp add: filter_concat)
  moreover have "filter (createdByEmp users empId)
        (filter (\<lambda>wp. \<not> createdByEmp users other wp) (concat (waypoints p))) =
      filter (createdByEmp users empId) (concat (waypoints p))"
    unfolding filter_filter
    by (rule filter_cong) (use assms createdByEmp_unique in blast)+
  ultimately show ?thesis by (simp add: employeeWaypoints_def removeWaypointsOf_def)
qed

lemma mkSegment_waypoints: "mkSegment (p\<lparr>waypoints := x\<rparr>) = mkSegment p"
  by (rule ext)+ (simp add: mkSegment_def)

lemma scanSegments_waypoints:
  "scanSegments (p\<lparr>waypoints := x\<rparr>) currentSegment ws = scanSegments p currentSegment ws"
  by (induction ws arbitrary: currentSegment) (simp_all add: Let_def mkSegment_waypoints)

lemma scanSegments_remove:
  "scanSegments (removeWaypointsOf users other p) = scanSegments p"
  by (rule ext)+ (simp add: removeWaypointsOf_def scanSegments_waypoints)

lemma allSegments_remove:
  "other \<noteq> empId \<Longrightarrow>
   allSegments users empId (map (removeWaypointsOf users other) projects) =
   allSegments users empId projects"
  by (simp add: allSegments_def comp_def employeeWaypoints_remove scanSegments_remove)

lemma assigned_remove:
  "filter (\<lambda>project. uid \<in> set (employees project)) (map (removeWaypointsOf users other) ps) =
   map (removeWaypointsOf users other) (filter (\<lambda>project. uid \<in> set (employees project)) ps)"
  by (simp add: filter_map comp_def removeWaypointsOf_def)

lemma getAllWaypointsEmployee_remove:
  "other \<noteq> empId \<Longrightarrow>
   getAllWaypointsEmployee users (map (removeWaypointsOf users other) allProjects) empId =
   getAllWaypointsEmployee users allProjects empId"
  by (simp add: getAllWaypointsEmployee_def reconstruct_def assigned_remove allSegments_remove
        split: option.splits)

lemma scanSegments_subset:
  "g \<in> set (scanSegments p currentSegment ws) \<Longrightarrow>
   set (seg_segment g) \<subseteq> set currentSegment \<union> set ws"
proof (induction ws arbitrary: currentSegment)
  case Nil
  then show ?case by simp
next
  case (Cons w ws)
  let ?cur1 = "if isStart w then [w] else if currentSegment \<noteq> [] then currentSegment @ [w]
               else currentSegment"
  let ?closing = "isEnd w \<and> ?cur1 \<noteq> []"
  let ?cur2 = "if ?closing then [] else ?cur1"
  let ?opening = "ws = [] \<and> ?cur2 \<noteq> []"
  let ?cur3 = "if ?opening then [] else ?cur2"
  have c1: "set ?cur1 \<subseteq> set currentSegment \<union> set (w # ws)" by auto
  then have c2: "set ?cur2 \<subseteq> set currentSegment \<union> set (w # ws)" by auto
  then have c3: "set ?cur3 \<subseteq> set currentSegment \<union> set (w # ws)" by auto
  from Cons.prems have "g = mkSegment p ?cur1 (timestamp w) \<or>
      g = mkSegment p ?cur2 (timestamp (hd ?cur2)) \<or> g \<in> set (scanSegments p ?cur3 ws)"
    by (auto simp: Let_def split: if_splits)
  then show ?case
  proof (elim disjE)
    assume "g = mkSegment p ?cur1 (timestamp w)"
    then have "seg_segment g = ?cur1" by (simp add: mkSegment_def)
    with c1 show ?thesis by simp
  next
    assume "g = mkSegment p ?cur2 (timestamp (hd ?cur2))"
    then have "seg_segment g = ?cur2" by (simp add: mkSegment_def)
    with c2 show ?thesis by simp
  next
    assume "g \<in> set (scanSegments p ?cur3 ws)"
    then have "set (seg_segment g) \<subseteq> set ?cur3 \<union> set ws" by (rule Cons.IH)
    with c3 show ?thesis by auto
  qed
qed

lemma allSegments_createdBy:
  assumes "g \<in> set (allSegments users empId projects)" and "wp \<in> set (seg_segment g)"
  shows "createdByEmp users empId wp"
proof -
  from assms(1) obtain p where "g \<in> set (scanSegments p [] (employeeWaypoints users empId p))"
    by (auto simp: allSegments_def)
  then have "set (seg_segment g) \<subseteq> set (employeeWaypoints users empId p)"
    using scanSegments_subset by fastforce
  with assms(2) show ?thesis by (auto simp: employeeWaypoints_def)
qed

lemma toView_createdBy:
  "createdByEmp users empId wp \<Longrightarrow>
   map_option c_empId (v_createdBy (toView users wp)) = Some empId"
  by (auto simp: createdByEmp_def toView_def split: option.splits)

lemma buildResult_views:
  assumes "entry \<in> set (buildResult users (groupByDate segs))"
    and "vs \<in> set (out_waypoints entry)"
  shows "\<exists>s \<in> set segs. vs = map (toView users) (seg_segment s)"
proof -
  from assms(1) obtain d where
    "entry \<in> set (projectsForDate users (dateGroup (groupByDate segs) d))"
    by (auto simp: buildResult_def)
  from projectsForDate_views [OF this assms(2)]
  show ?thesis by (auto simp: dateGroup_groupByDate)
qed

lemma reconstruct_createdBy:
  assumes "entry \<in> set (reconstruct users empId projects)"
    and "vs \<in> set (out_waypoints entry)" and "v \<in> set vs"
  shows "map_option c_empId (v_createdBy v) = Some empId"
proof -
  from buildResult_views [OF assms(1) [unfolded reconstruct_def] assms(2)]
  obtain s where s: "s \<in> set (allSegments users empId projects)"
      "vs = map (toView users) (seg_segment s)"
    by (auto simp: sortSegments_def)
  with assms(3) obtain wp where wp: "wp \<in> set (seg_segment s)" "v = toView users wp" by auto
  from allSegments_createdBy [OF s(1) wp(1)] have "createdByEmp users empId wp" .
  with wp(2) show ?thesis by (simp add: toView_createdBy)
qed

text \<open>
  C9. The answer for one employee is the same when the waypoints of another employee are
  removed from every project, and every waypoint in the answer was created by the employee
  asked for.
\<close>

theorem reconstruct_noninterference:
  "(other \<noteq> empId \<longrightarrow>
      getAllWaypointsEmployee users (map (removeWaypointsOf users other) allProjects) empId =
      getAllWaypointsEmployee users allProjects empId) \<and>
   (\<forall>rep. getAllWaypointsEmployee users allProjects empId = Inr rep \<longrightarrow>
      (\<forall>entry \<in> set (r_projects rep). \<forall>vs \<in> set (out_waypoints entry). \<forall>v \<in> set vs.
         map_option c_empId (v_createdBy v) = Some empId))"
proof -
  have "\<forall>entry \<in> set (r_projects rep). \<forall>vs \<in> set (out_waypoints entry). \<forall>v \<in> set vs.
         map_option c_empId (v_createdBy v) = Some empId"
    if "getAllWaypointsEmployee users allProjects empId = Inr rep" for rep
  proof -
    from that obtain ps where "r_projects rep = reconstruct users empId ps"
      by (auto simp: getAllWaypointsEmployee_def split: option.splits)
    then show ?thesis using reconstruct_createdBy by fastforce
  qed
  then show ?thesis using getAllWaypointsEmployee_remove by blast
qed

text \<open>Employee 1's history in \<open>exTwoDays\<close>, with and without the path of employee 2.\<close>

theorem reconstruct_noninterference_witness:
  "''E2'' \<noteq> ''E1'' \<and>
   waypoints (removeWaypointsOf exUsers ''E2'' exTwoDays) =
     [[exWaypoint True False 1 1000, exWaypoint False True 1 2000], [],
      [exWaypoint True False 1 86400000, exWaypoint False True 1 86401000]] \<and>
   getAllWaypointsEmployee exUsers (map (removeWaypointsOf exUsers ''E2'') [exTwoDays]) ''E1'' =
     getAllWaypointsEmployee exUsers [exTwoDays] ''E1'' \<and>
   getAllWaypointsEmployee exUsers [exTwoDays] ''E1'' =
     Inr \<lparr> r_empId = ''E1'', r_employeeName = ''Asha'',
           r_projects =
             [exEntry [[exView True False 86400000, exView False True 86401000]],
              exEntry [[exView True False 1000, exView False True 2000]]] \<rparr> \<and>
   list_all (\<lambda>entry. list_all (list_all
        (\<lambda>v. map_option c_empId (v_createdBy v) = Some ''E1'')) (out_waypoints entry))
     [exEntry [[exView True False 86400000, exView False True 86401000]],
      exEntry [[exView True False 1000, exView False True 2000]]]"
proof -
  let ?rep = "\<lparr> r_empId = ''E1'', r_employeeName = ''Asha'',
           r_projects =
             [exEntry [[exView True False 86400000, exView False True 86401000]],
              exEntry [[exView True False 1000, exView False True 2000]]] \<rparr>"
  have ne: "''E2'' \<noteq> ''E1''" by simp
  have rm: "waypoints (removeWaypointsOf exUsers ''E2'' exTwoDays) =
     [[exWaypoint True False 1 1000, exWaypoint False True 1 2000], [],
      [exWaypoint True False 1 86400000, exWaypoint False True 1 86401000]]"
    by (simp add: removeWaypointsOf_def exTwoDays_def createdByEmp_def populateCreatedBy_def
          exUsers_def exWaypoint_def)
  have f: "find (\<lambda>u. u_empId u = ''E1'') exUsers =
      Some \<lparr> u_id = 1, u_empId = ''E1'', u_name = ''Asha'', u_role = ''employee'',
             u_email = None \<rparr>"
    by (simp add: exUsers_def)
  have a: "employees exTwoDays = [1, 2]" by (simp add: exTwoDays_def exProject_def)
  have r: "getAllWaypointsEmployee exUsers [exTwoDays] ''E1'' = Inr ?rep"
    unfolding getAllWaypointsEmployee_def f by (simp add: a ex_two_days_reconstruct)
  note t = reconstruct_noninterference [of "''E2''" "''E1''" exUsers "[exTwoDays]"]
  from conjunct1 [OF t] ne
  have eq: "getAllWaypointsEmployee exUsers (map (removeWaypointsOf exUsers ''E2'') [exTwoDays])
      ''E1'' = getAllWaypointsEmployee exUsers [exTwoDays] ''E1''"
    by (rule mp)
  from conjunct2 [OF t] r
  have "\<forall>entry \<in> set (r_projects ?rep). \<forall>vs \<in> set (out_waypoints entry). \<forall>v \<in> set vs.
         map_option c_empId (v_createdBy v) = Some ''E1''"
    by blast
  then have al: "list_all (\<lambda>entry. list_all (list_all
        (\<lambda>v. map_option c_empId (v_createdBy v) = Some ''E1'')) (out_waypoints entry))
     [exEntry [[exView True False 86400000, exView False True 86401000]],
      exEntry [[exView True False 1000, exView False True 2000]]]"
    unfolding list_all_iff by simp
  from ne rm eq r al show ?thesis by (intro conjI)
qed

end
